theory Spec2Isabelle
  imports Main "HOL-Library.Sublist"
begin

section \<open>Python strings\<close>

text \<open>
  A Python \<open>str\<close> is modelled as a \<open>string\<close> (a list of 8-bit characters), which
  covers the code points below 256. On those, the regular expression class \<open>\d\<close>
  is exactly \<open>0\<close> .. \<open>9\<close>, and \<open>int\<close> reads a run of such digits in base ten.
\<close>

definition is_digit :: "char \<Rightarrow> bool" where
  "is_digit c = (48 \<le> (of_char c :: nat) \<and> (of_char c :: nat) \<le> 57)"

definition digit_val :: "char \<Rightarrow> nat" where
  "digit_val c = of_char c - 48"

text \<open>\<open>int(ds)\<close> for a non-empty run of decimal digits \<open>ds\<close>.\<close>

definition int_of_digits :: "string \<Rightarrow> nat" where
  "int_of_digits ds = foldl (\<lambda>n c. 10 * n + digit_val c) 0 ds"

text \<open>\<open>s.startswith(p)\<close>, returning what follows the prefix.\<close>

fun strip_prefix :: "string \<Rightarrow> string \<Rightarrow> string option" where
  "strip_prefix [] s = Some s"
| "strip_prefix (p # ps) [] = None"
| "strip_prefix (p # ps) (c # cs) = (if p = c then strip_prefix ps cs else None)"

definition startswith :: "string \<Rightarrow> string \<Rightarrow> bool" where
  "startswith s p = (strip_prefix p s \<noteq> None)"

section \<open>Video classification\<close>

subsection \<open>The duration pattern\<close>

text \<open>
  \<open>_is_short_duration\<close> matches \<open>PT(\d+H)?(\d+M)?(\d+S)?\<close> with \<open>re.match\<close>, which
  anchors the pattern at the start of the string only.

  One component \<open>\d+U\<close> at the start of \<open>s\<close>: the digit run is greedy, and a shorter
  run would be followed by a digit instead of the unit letter, so the component
  matches exactly when the longest digit run is non-empty and the unit follows it.
  The result is the digits (the group without its last character) and the rest.
\<close>

definition match_component :: "char \<Rightarrow> string \<Rightarrow> (string \<times> string) option" where
  "match_component u s =
     (let ds = takeWhile is_digit s; r = dropWhile is_digit s in
      case r of
        [] \<Rightarrow> None
      | c # r' \<Rightarrow> if ds \<noteq> [] \<and> c = u then Some (ds, r') else None)"

text \<open>
  An optional group \<open>(\d+U)?\<close> is greedy: it takes the component when there is one.
  Everything after it in the pattern is optional too and the pattern has no end
  anchor, so the matcher never has to give a component back.
\<close>

definition opt_component :: "char \<Rightarrow> string \<Rightarrow> string option \<times> string" where
  "opt_component u s =
     (case match_component u s of
        None \<Rightarrow> (None, s)
      | Some (ds, r) \<Rightarrow> (Some ds, r))"

record duration_match =
  group1 :: "string option"
  group2 :: "string option"
  group3 :: "string option"
  unmatched :: string

text \<open>
  \<open>re.match(r'PT(\d+H)?(\d+M)?(\d+S)?', duration)\<close>: \<open>None\<close> when the string does not
  begin with \<open>PT\<close>; otherwise the three groups (their digits) and the part of the
  string after the end of the match.
\<close>

definition re_match_duration :: "string \<Rightarrow> duration_match option" where
  "re_match_duration duration =
     (case strip_prefix ''PT'' duration of
        None \<Rightarrow> None
      | Some r0 \<Rightarrow>
          (let (g1, r1) = opt_component CHR ''H'' r0;
               (g2, r2) = opt_component CHR ''M'' r1;
               (g3, r3) = opt_component CHR ''S'' r2
           in Some \<lparr>group1 = g1, group2 = g2, group3 = g3, unmatched = r3\<rparr>))"

definition group_seconds :: "string option \<Rightarrow> nat" where
  "group_seconds g = (case g of None \<Rightarrow> 0 | Some ds \<Rightarrow> int_of_digits ds)"

definition total_seconds :: "duration_match \<Rightarrow> nat" where
  "total_seconds m =
     group_seconds (group1 m) * 3600 + group_seconds (group2 m) * 60 + group_seconds (group3 m)"

definition is_short_duration :: "string \<Rightarrow> bool" where
  "is_short_duration duration =
     (case re_match_duration duration of
        Some m \<Rightarrow> total_seconds m \<le> 60
      | None \<Rightarrow> False)"

subsection \<open>The classifier\<close>

text \<open>
  \<open>live_details\<close> is an optional dictionary (\<open>video.get('liveStreamingDetails')\<close>) and
  \<open>broadcast_content\<close> an optional string (\<open>snippet.get('liveBroadcastContent')\<close>).
  The test \<open>if live_details\<close> is Python truthiness: \<open>None\<close> and the empty dictionary
  are both false.
\<close>

type_synonym json_object = "(string \<times> string) list"

definition dict_truthy :: "json_object option \<Rightarrow> bool" where
  "dict_truthy d = (case d of None \<Rightarrow> False | Some kvs \<Rightarrow> kvs \<noteq> [])"

definition determine_video_type :: "string \<Rightarrow> json_object option \<Rightarrow> string option \<Rightarrow> string" where
  "determine_video_type duration live_details broadcast_content =
     (if dict_truthy live_details
         \<or> broadcast_content = Some ''live'' \<or> broadcast_content = Some ''upcoming''
      then ''Live''
      else if is_short_duration duration then ''Short''
      else ''Video'')"

section \<open>More string operations\<close>

text \<open>\<open>sub in s\<close>: the substring test.\<close>

fun contains :: "string \<Rightarrow> string \<Rightarrow> bool" where
  "contains [] sub = (sub = [])"
| "contains (c # cs) sub = (startswith (c # cs) sub \<or> contains cs sub)"

text \<open>
  The first occurrence of \<open>sep\<close> in \<open>s\<close>, scanning from the left: the text before it
  and the text after it.
\<close>

fun find_first :: "string \<Rightarrow> string \<Rightarrow> (string \<times> string) option" where
  "find_first sep [] = (if sep = [] then Some ([], []) else None)"
| "find_first sep (c # cs) =
     (case strip_prefix sep (c # cs) of
        Some r \<Rightarrow> Some ([], r)
      | None \<Rightarrow> (case find_first sep cs of
                   None \<Rightarrow> None
                 | Some (b, a) \<Rightarrow> Some (c # b, a)))"

lemma strip_prefix_Some: "strip_prefix p s = Some r \<Longrightarrow> s = p @ r"
  by (induction p s rule: strip_prefix.induct) (auto split: if_splits)

lemma find_first_Some: "find_first sep s = Some (b, a) \<Longrightarrow> s = b @ sep @ a"
proof (induction s arbitrary: b)
  case Nil
  then show ?case by (simp split: if_splits)
next
  case (Cons c cs)
  show ?case
  proof (cases "strip_prefix sep (c # cs)")
    case (Some r)
    with Cons.prems show ?thesis by (auto dest: strip_prefix_Some)
  next
    case None
    with Cons.prems obtain b' where "find_first sep cs = Some (b', a)" "b = c # b'"
      by (auto split: option.splits)
    with Cons.IH show ?thesis by simp
  qed
qed

text \<open>
  \<open>s.split(sep)\<close>: the pieces between the non-overlapping occurrences of \<open>sep\<close>, found
  from the left. Python raises \<open>ValueError\<close> for an empty separator; the source splits
  at non-empty literals only, and the model gives no piece at all for an empty one.
\<close>

function split :: "string \<Rightarrow> string \<Rightarrow> string list" where
  "split sep s =
     (if sep = [] then []
      else case find_first sep s of
             None \<Rightarrow> [s]
           | Some (b, a) \<Rightarrow> b # split sep a)"
  by pat_completeness auto
termination
  by (relation "measure (\<lambda>(sep, s). length s)") (auto dest: find_first_Some)

declare split.simps [simp del]

text \<open>
  String comparison \<open>a < b\<close>: lexicographic on the code points, a proper prefix
  being smaller.
\<close>

fun str_lt :: "string \<Rightarrow> string \<Rightarrow> bool" where
  "str_lt [] [] = False"
| "str_lt [] (y # ys) = True"
| "str_lt (x # xs) [] = False"
| "str_lt (x # xs) (y # ys) =
     (if (of_char x :: nat) < of_char y then True
      else if (of_char y :: nat) < of_char x then False
      else str_lt xs ys)"

datatype py_error = IndexError | KeyError string

text \<open>\<open>xs[i]\<close> for \<open>i \<ge> 0\<close> and \<open>xs[-1]\<close>.\<close>

definition index :: "'a list \<Rightarrow> nat \<Rightarrow> py_error + 'a" where
  "index xs i = (if i < length xs then Inr (xs ! i) else Inl IndexError)"

definition index_last :: "'a list \<Rightarrow> py_error + 'a" where
  "index_last xs = (case xs of [] \<Rightarrow> Inl IndexError | _ \<Rightarrow> Inr (last xs))"

section \<open>The video platform's API\<close>

text \<open>
  The client \<open>self.youtube\<close> is external. It is modelled as the answers its requests
  give: \<open>execute()\<close> either raises (\<open>Inl\<close>, with the exception's message) or returns
  a response (\<open>Inr\<close>), of which the model keeps the parts the source reads. Responses
  are taken to have the shape the source indexes into. Every request that a function
  makes is recorded, in order, in a list of \<open>api_call\<close>.
\<close>

datatype api_call =
    ChannelsListForUsername string
  | SearchListChannel string
  | ChannelsListById string
  | PlaylistItemsList string nat "string option"
  | VideosList string

record video_resource =
  vr_title :: string
  vr_published_at :: string
  vr_view_count :: "int option"
  vr_like_count :: "int option"
  vr_comment_count :: "int option"
  vr_duration :: string
  vr_live_streaming_details :: "json_object option"
  vr_live_broadcast_content :: "string option"

record playlist_item =
  pi_published_at :: string
  pi_video_id :: string

record playlist_page =
  pp_items :: "playlist_item list"
  pp_next_page_token :: "string option"

text \<open>
  \<^item> \<open>channels_for_username u\<close>: \<open>channels().list(part='id', forUsername=u)\<close>, the
    \<open>id\<close> of each item;
  \<^item> \<open>search_channel q\<close>: \<open>search().list(part='snippet', q=q, type='channel',
    maxResults=1)\<close>, the \<open>snippet.channelId\<close> of each item;
  \<^item> \<open>channels_by_id c\<close>: \<open>channels().list(part='contentDetails', id=c)\<close>, the
    uploads playlist of each item;
  \<^item> \<open>playlist_items p n t\<close>: \<open>playlistItems().list(part='snippet', playlistId=p,
    maxResults=n, pageToken=t)\<close>;
  \<^item> \<open>videos_by_id v\<close>: \<open>videos().list(part=..., id=v)\<close>, its items.
\<close>

record youtube =
  channels_for_username :: "string \<Rightarrow> string + string list"
  search_channel :: "string \<Rightarrow> string + string list"
  channels_by_id :: "string \<Rightarrow> string + string list"
  playlist_items :: "string \<Rightarrow> nat \<Rightarrow> string option \<Rightarrow> string + playlist_page"
  videos_by_id :: "string \<Rightarrow> string + video_resource list"

section \<open>Resolving the channel identifier\<close>

definition get_channel_id_from_username ::
  "youtube \<Rightarrow> string \<Rightarrow> string option \<times> api_call list" where
  "get_channel_id_from_username yt username =
     (case channels_for_username yt username of
        Inl e \<Rightarrow> (None, [ChannelsListForUsername username])
      | Inr [] \<Rightarrow> (None, [ChannelsListForUsername username])
      | Inr (i # _) \<Rightarrow> (Some i, [ChannelsListForUsername username]))"

definition get_channel_id_from_handle ::
  "youtube \<Rightarrow> string \<Rightarrow> string option \<times> api_call list" where
  "get_channel_id_from_handle yt handle =
     (case search_channel yt (''@'' @ handle) of
        Inl e \<Rightarrow> (None, [SearchListChannel (''@'' @ handle)])
      | Inr [] \<Rightarrow> (None, [SearchListChannel (''@'' @ handle)])
      | Inr (i # _) \<Rightarrow> (Some i, [SearchListChannel (''@'' @ handle)]))"

text \<open>
  \<open>get_channel_id\<close> has no handler of its own: an \<open>IndexError\<close> of its indexing would
  reach the caller, so the result is a sum. The second component is the list of
  requests made.
\<close>

definition get_channel_id ::
  "youtube \<Rightarrow> string \<Rightarrow> (py_error + string option) \<times> api_call list" where
  "get_channel_id yt identifier =
     (if contains identifier ''youtube.com'' then
        if contains identifier ''/channel/'' then
          (case index (split ''/channel/'' identifier) 1 of
             Inl e \<Rightarrow> (Inl e, [])
           | Inr rest \<Rightarrow>
               (case index (split ''/'' rest) 0 of
                  Inl e \<Rightarrow> (Inl e, [])
                | Inr seg \<Rightarrow> (Inr (Some seg), [])))
        else if contains identifier ''/c/'' \<or> contains identifier ''/user/'' then
          (case index_last (split ''/'' identifier) of
             Inl e \<Rightarrow> (Inl e, [])
           | Inr username \<Rightarrow>
               (let (r, cs) = get_channel_id_from_username yt username in (Inr r, cs)))
        else if contains identifier ''/@'' then
          (case index (split ''/@'' identifier) 1 of
             Inl e \<Rightarrow> (Inl e, [])
           | Inr rest \<Rightarrow>
               (case index (split ''/'' rest) 0 of
                  Inl e \<Rightarrow> (Inl e, [])
                | Inr handle \<Rightarrow>
                    (let (r, cs) = get_channel_id_from_handle yt handle in (Inr r, cs))))
        else (Inr None, [])
      else if startswith identifier ''@'' then
        (let (r, cs) = get_channel_id_from_handle yt (drop 1 identifier) in (Inr r, cs))
      else
        (let (r, cs) = get_channel_id_from_username yt identifier in (Inr r, cs)))"

section \<open>Listing a channel's videos\<close>

text \<open>
  A video is a dictionary. \<open>get_video_details\<close> fills every key; \<open>analyze_channel\<close>
  reads \<open>views\<close>, \<open>likes\<close>, \<open>comments\<close> and \<open>type\<close> through \<open>get\<close> with a default,
  so these four may be absent.
\<close>

record video =
  video_id :: string
  title :: string
  published_at :: string
  views :: "int option"
  likes :: "int option"
  comments :: "int option"
  duration :: string
  video_type :: "string option"
  url :: string

text \<open>
  \<open>int(statistics.get('viewCount', 0))\<close>: the count, or 0 when the key is absent. The
  API gives the counts as decimal numerals; the model holds their values.
\<close>

definition stat :: "int option \<Rightarrow> int" where
  "stat c = (case c of None \<Rightarrow> 0 | Some n \<Rightarrow> n)"

text \<open>
  \<open>get_video_details\<close> catches every exception and returns the empty dictionary then,
  as it does when the response has no item; the caller only tests the result's
  truthiness, so the empty dictionary is \<open>None\<close> here. The caller's \<open>video_id\<close> key is
  filled in at once.
\<close>

definition get_video_details :: "youtube \<Rightarrow> string \<Rightarrow> video option \<times> api_call list" where
  "get_video_details yt vid =
     (case videos_by_id yt vid of
        Inl e \<Rightarrow> (None, [VideosList vid])
      | Inr [] \<Rightarrow> (None, [VideosList vid])
      | Inr (v # _) \<Rightarrow>
          (Some \<lparr>video_id = vid,
                 title = vr_title v,
                 published_at = vr_published_at v,
                 views = Some (stat (vr_view_count v)),
                 likes = Some (stat (vr_like_count v)),
                 comments = Some (stat (vr_comment_count v)),
                 duration = vr_duration v,
                 video_type = Some (determine_video_type (vr_duration v)
                   (vr_live_streaming_details v) (vr_live_broadcast_content v)),
                 url = ''https://youtube.com/watch?v='' @ vid\<rparr>,
           [VideosList vid]))"

text \<open>
  The state of the listing: the videos collected so far and the requests made so far.
  The body of the \<open>for\<close> loop over one page's items:
\<close>

type_synonym listing = "video list \<times> api_call list"

fun collect_items :: "youtube \<Rightarrow> string \<Rightarrow> playlist_item list \<Rightarrow> listing \<Rightarrow> listing" where
  "collect_items yt published_after [] st = st"
| "collect_items yt published_after (item # items) st =
     (if str_lt (pi_published_at item) published_after
      then collect_items yt published_after items st
      else (case get_video_details yt (pi_video_id item) of
              (None, cs) \<Rightarrow> collect_items yt published_after items (fst st, snd st @ cs)
            | (Some d, cs) \<Rightarrow>
                collect_items yt published_after items (fst st @ [d], snd st @ cs)))"

text \<open>\<open>if not next_page_token\<close>: \<open>None\<close> and the empty string both end the loop.\<close>

definition token_truthy :: "string option \<Rightarrow> bool" where
  "token_truthy t = (case t of None \<Rightarrow> False | Some s \<Rightarrow> s \<noteq> [])"

text \<open>
  The \<open>while True\<close> loop. It ends when a page has no continuation token or when the
  page request raises, which the handler around the loop turns into returning the
  videos collected so far. The API may hand out tokens forever, so the loop is a
  partial function: \<open>None\<close> is "does not return".
\<close>

partial_function (option) page_loop ::
  "youtube \<Rightarrow> string \<Rightarrow> string \<Rightarrow> string option \<Rightarrow> listing \<Rightarrow> listing option" where
  "page_loop yt published_after playlist token st =
     (case playlist_items yt playlist 50 token of
        Inl e \<Rightarrow> Some (fst st, snd st @ [PlaylistItemsList playlist 50 token])
      | Inr page \<Rightarrow>
          (let st' = collect_items yt published_after (pp_items page)
                       (fst st, snd st @ [PlaylistItemsList playlist 50 token])
           in if token_truthy (pp_next_page_token page)
              then page_loop yt published_after playlist (pp_next_page_token page) st'
              else Some st'))"

text \<open>
  \<open>get_channel_videos\<close>. The cutoff \<open>published_after\<close> is computed from the clock
  (\<open>utcnow() - days\<close>, in ISO format with a \<open>Z\<close>); the model takes the string.
\<close>

definition get_channel_videos :: "youtube \<Rightarrow> string \<Rightarrow> string \<Rightarrow> listing option" where
  "get_channel_videos yt published_after channel_id =
     (case channels_by_id yt channel_id of
        Inl e \<Rightarrow> Some ([], [ChannelsListById channel_id])
      | Inr [] \<Rightarrow> Some ([], [ChannelsListById channel_id])
      | Inr (uploads # _) \<Rightarrow>
          page_loop yt published_after uploads None ([], [ChannelsListById channel_id]))"

section \<open>Aggregating the videos\<close>

text \<open>
  Python floats are kept abstract: the three float operations \<open>analyze_channel\<close> uses
  are parameters, and a number in the result is either an \<open>int\<close> or a float.
  \<^item> \<open>true_div a b\<close> is \<open>a / b\<close> for two ints;
  \<^item> \<open>mul_int x n\<close> is \<open>x * n\<close> for a float and an int;
  \<^item> \<open>round_to x n\<close> is \<open>round(x, n)\<close>.
\<close>

datatype 'f pynum = PyInt int | PyFloat 'f

record 'f float_ops =
  true_div :: "int \<Rightarrow> int \<Rightarrow> 'f"
  mul_int :: "'f \<Rightarrow> int \<Rightarrow> 'f"
  round_to :: "'f \<Rightarrow> int \<Rightarrow> 'f"

record 'f type_stats =
  count :: int
  total_views :: int
  total_likes :: int
  total_comments :: int
  average_views :: "'f pynum"
  average_likes :: "'f pynum"
  average_comments :: "'f pynum"
  engagement_rate :: "'f pynum"
  top_videos :: "video list"

text \<open>
  The overall totals; the keys \<open>total_views\<close>, \<open>total_likes\<close> and \<open>total_comments\<close> of
  \<open>total_stats\<close> are named \<open>overall_...\<close> here, apart from the per-type ones.
\<close>

record total_stats =
  total_videos :: int
  overall_views :: int
  overall_likes :: int
  overall_comments :: int

record 'f analysis_results =
  result_channel_id :: string
  analysis_period_days :: int
  analysis_date :: string
  overall_stats :: total_stats
  content_type_analysis :: "string \<rightharpoonup> 'f type_stats"
  all_videos :: "video list"

definition get_empty_type_stats :: "'f type_stats" where
  "get_empty_type_stats =
     \<lparr>count = 0, total_views = 0, total_likes = 0, total_comments = 0,
      average_views = PyInt 0, average_likes = PyInt 0, average_comments = PyInt 0,
      engagement_rate = PyInt 0, top_videos = []\<rparr>"

text \<open>The initial \<open>content_type_stats\<close>: the same literal under each of the three keys.\<close>

definition initial_content_type_stats :: "string \<rightharpoonup> 'f type_stats" where
  "initial_content_type_stats =
     [''Video'' \<mapsto> get_empty_type_stats,
      ''Short'' \<mapsto> get_empty_type_stats,
      ''Live'' \<mapsto> get_empty_type_stats]"

text \<open>
  \<open>sorted(xs, key=key, reverse=True)\<close>: a stable sort into descending order of the
  key, elements with equal keys staying in their order in \<open>xs\<close>.
\<close>

definition sorted_reverse :: "('a \<Rightarrow> int) \<Rightarrow> 'a list \<Rightarrow> 'a list" where
  "sorted_reverse key xs = sort_key (\<lambda>x. - key x) xs"

definition views_of :: "video \<Rightarrow> int" where
  "views_of v = stat (views v)"

definition likes_of :: "video \<Rightarrow> int" where
  "likes_of v = stat (likes v)"

definition comments_of :: "video \<Rightarrow> int" where
  "comments_of v = stat (comments v)"

text \<open>\<open>video.get('type', 'Video')\<close>\<close>

definition type_of :: "video \<Rightarrow> string" where
  "type_of v = (case video_type v of None \<Rightarrow> ''Video'' | Some t \<Rightarrow> t)"

text \<open>The body of the grouping loop, on the bucket of the video's type.\<close>

definition add_video :: "video \<Rightarrow> 'f type_stats \<Rightarrow> 'f type_stats" where
  "add_video v stats =
     stats\<lparr>count := count stats + 1,
           total_views := total_views stats + views_of v,
           total_likes := total_likes stats + likes_of v,
           total_comments := total_comments stats + comments_of v,
           top_videos := take 5 (sorted_reverse views_of (top_videos stats @ [v]))\<rparr>"

text \<open>
  The grouping loop. \<open>content_type_stats[video_type]\<close> raises \<open>KeyError\<close> for a type
  that is not a key, and nothing catches it.
\<close>

fun group_videos ::
  "video list \<Rightarrow> (string \<rightharpoonup> 'f type_stats) \<Rightarrow> py_error + (string \<rightharpoonup> 'f type_stats)" where
  "group_videos [] m = Inr m"
| "group_videos (v # vs) m =
     (case m (type_of v) of
        None \<Rightarrow> Inl (KeyError (type_of v))
      | Some stats \<Rightarrow> group_videos vs (m(type_of v \<mapsto> add_video v stats)))"

text \<open>The second loop, on one bucket: averages and engagement rate.\<close>

definition finish_stats :: "'f float_ops \<Rightarrow> 'f type_stats \<Rightarrow> 'f type_stats" where
  "finish_stats fl stats =
     (if count stats > 0 then
        stats\<lparr>average_views :=
                PyFloat (round_to fl (true_div fl (total_views stats) (count stats)) 2),
              average_likes :=
                PyFloat (round_to fl (true_div fl (total_likes stats) (count stats)) 2),
              average_comments :=
                PyFloat (round_to fl (true_div fl (total_comments stats) (count stats)) 2),
              engagement_rate :=
                (if total_views stats > 0
                 then PyFloat (round_to fl
                        (mul_int fl (true_div fl (total_likes stats + total_comments stats)
                                       (total_views stats)) 100) 2)
                 else PyInt 0)\<rparr>
      else stats)"

text \<open>
  \<open>analyze_channel\<close> from the point where it has the channel id and the videos
  (the date \<open>utcnow().isoformat()\<close> is a parameter).
\<close>

definition analyze_videos ::
  "'f float_ops \<Rightarrow> string \<Rightarrow> int \<Rightarrow> string \<Rightarrow> video list \<Rightarrow> py_error + 'f analysis_results" where
  "analyze_videos fl cid days now videos =
     (let total = \<lparr>total_videos = int (length videos),
                    overall_views = sum_list (map views_of videos),
                    overall_likes = sum_list (map likes_of videos),
                    overall_comments = sum_list (map comments_of videos)\<rparr>
      in case group_videos videos initial_content_type_stats of
           Inl e \<Rightarrow> Inl e
         | Inr m \<Rightarrow>
             Inr \<lparr>result_channel_id = cid,
                  analysis_period_days = days,
                  analysis_date = now,
                  overall_stats = total,
                  content_type_analysis = (\<lambda>k. map_option (finish_stats fl) (m k)),
                  all_videos = videos\<rparr>)"

datatype 'f analysis = ErrorDict string | Results "'f analysis_results"

text \<open>
  The whole of \<open>analyze_channel\<close>. \<open>cutoff days\<close> is the cutoff string the clock gives
  for a window of \<open>days\<close>. \<open>None\<close> is "does not return", \<open>Inl\<close> an exception that
  reaches the caller.
\<close>

definition analyze_channel ::
  "'f float_ops \<Rightarrow> youtube \<Rightarrow> (int \<Rightarrow> string) \<Rightarrow> string \<Rightarrow> string \<Rightarrow> int
     \<Rightarrow> (py_error + 'f analysis) option" where
  "analyze_channel fl yt cutoff now channel_url days =
     (case fst (get_channel_id yt channel_url) of
        Inl e \<Rightarrow> Some (Inl e)
      | Inr None \<Rightarrow> Some (Inr (ErrorDict ''Could not find channel ID''))
      | Inr (Some cid) \<Rightarrow>
          if cid = [] then Some (Inr (ErrorDict ''Could not find channel ID''))
          else (case get_channel_videos yt (cutoff days) cid of
                  None \<Rightarrow> None
                | Some (videos, cs) \<Rightarrow>
                    (case analyze_videos fl cid days now videos of
                       Inl e \<Rightarrow> Some (Inl e)
                     | Inr r \<Rightarrow> Some (Inr (Results r)))))"

section \<open>The document lookup services\<close>

text \<open>
  The database client is external: each of its calls either raises (\<open>Inl\<close>, with
  \<open>str(e)\<close>) or returns. A handler's result is the HTTP status, the body and the
  database calls it made, in order.
\<close>

type_synonym document = "(string \<times> string) list"

datatype db_call =
    Connect
  | Execute string "string list"
  | Shutdown
  | Collection string
  | Find string

datatype body =
    ErrorBody string
  | DataBody "document list"
  | DocumentBody document

type_synonym response = "nat \<times> body \<times> db_call list"

text \<open>\<open>if not channel_id\<close>: the parameter is missing or empty.\<close>

definition param_missing :: "string option \<Rightarrow> bool" where
  "param_missing p = (case p of None \<Rightarrow> True | Some s \<Rightarrow> s = [])"

text \<open>
  \<open>api.py\<close>: \<open>db.connect()\<close> gives a session, whose \<open>execute\<close> gives the rows. The
  \<open>finally\<close> clause shuts the session down when there is one; \<open>shutdown\<close> is taken not
  to raise.
\<close>

record session_db =
  connect :: "string + unit"
  execute :: "string \<Rightarrow> string list \<Rightarrow> string + document list"

definition get_data_api :: "session_db \<Rightarrow> string option \<Rightarrow> response" where
  "get_data_api db channel_id_param =
     (if param_missing channel_id_param
      then (400, ErrorBody ''channel_id parameter is required'', [])
      else
        (let cid = (case channel_id_param of Some s \<Rightarrow> s | None \<Rightarrow> []);
             query = ''SELECT * FROM data WHERE channel_id = %s''
         in case connect db of
              Inl e \<Rightarrow> (500, ErrorBody e, [Connect])
            | Inr session \<Rightarrow>
                (case execute db query [cid] of
                   Inl e \<Rightarrow> (500, ErrorBody e, [Connect, Execute query [cid], Shutdown])
                 | Inr rows \<Rightarrow>
                     (200, DataBody rows, [Connect, Execute query [cid], Shutdown]))))"

text \<open>
  \<open>DB_data_api.py\<close>: \<open>db.collection(name)\<close>, then \<open>find\<close>, whose answer is the list
  \<open>results["data"]["documents"]\<close>; its first element is returned, and indexing an
  empty list raises \<open>IndexError\<close> inside the \<open>try\<close>.
\<close>

record collection_db =
  collection :: "string \<Rightarrow> string + unit"
  find :: "string \<Rightarrow> string \<Rightarrow> string + document list"

definition get_data_db :: "collection_db \<Rightarrow> string option \<Rightarrow> response" where
  "get_data_db db channel_id_param =
     (if param_missing channel_id_param
      then (400, ErrorBody ''channel_id parameter is required'', [])
      else
        (let cid = (case channel_id_param of Some s \<Rightarrow> s | None \<Rightarrow> [])
         in case collection db ''data'' of
              Inl e \<Rightarrow> (500, ErrorBody e, [Collection ''data''])
            | Inr c \<Rightarrow>
                (case find db ''data'' cid of
                   Inl e \<Rightarrow> (500, ErrorBody e, [Collection ''data'', Find cid])
                 | Inr [] \<Rightarrow>
                     (500, ErrorBody ''list index out of range'',
                      [Collection ''data'', Find cid])
                 | Inr (d # _) \<Rightarrow> (200, DocumentBody d, [Collection ''data'', Find cid]))))"

section \<open>Reference definitions\<close>

text \<open>
  The restricted duration form \<open>PT[nH][nM][nS]\<close>, written out from its components:
  each component is absent or a non-empty run of digits followed by its unit.
\<close>

definition component :: "string option \<Rightarrow> char \<Rightarrow> string" where
  "component g u = (case g of None \<Rightarrow> [] | Some ds \<Rightarrow> ds @ [u])"

definition render_duration :: "string option \<Rightarrow> string option \<Rightarrow> string option \<Rightarrow> string" where
  "render_duration h m s =
     ''PT'' @ component h CHR ''H'' @ component m CHR ''M'' @ component s CHR ''S''"

definition digits_ok :: "string option \<Rightarrow> bool" where
  "digits_ok g = (case g of None \<Rightarrow> True | Some ds \<Rightarrow> ds \<noteq> [] \<and> list_all is_digit ds)"

text \<open>The decimal numeral of a number.\<close>

fun decimal :: "nat \<Rightarrow> string" where
  "decimal n =
     (if n < 10 then [char_of (48 + n)]
      else decimal (n div 10) @ [char_of (48 + n mod 10)])"

declare decimal.simps [simp del]

text \<open>
  The path segment right after the first occurrence of \<open>sep\<close> in a string: what
  follows the occurrence, up to the next slash or the end.
\<close>

fun segment_after :: "string \<Rightarrow> string \<Rightarrow> string option" where
  "segment_after sep [] = None"
| "segment_after sep (c # cs) =
     (case strip_prefix sep (c # cs) of
        Some r \<Rightarrow> Some (takeWhile (\<lambda>x. x \<noteq> CHR ''/'') r)
      | None \<Rightarrow> segment_after sep cs)"

text \<open>A client every request of which raises.\<close>

definition offline :: youtube where
  "offline =
     \<lparr>channels_for_username = (\<lambda>u. Inl ''offline''),
      search_channel = (\<lambda>q. Inl ''offline''),
      channels_by_id = (\<lambda>c. Inl ''offline''),
      playlist_items = (\<lambda>p n t. Inl ''offline''),
      videos_by_id = (\<lambda>v. Inl ''offline'')\<rparr>"

text \<open>The videos of one content type, in the order of the list.\<close>

definition bucket :: "string \<Rightarrow> video list \<Rightarrow> video list" where
  "bucket t videos = filter (\<lambda>v. type_of v = t) videos"

text \<open>A video's \<open>type\<close> key is absent or holds one of the three content types.\<close>

definition known_type :: "video \<Rightarrow> bool" where
  "known_type v = (video_type v = None \<or> video_type v = Some ''Video''
                    \<or> video_type v = Some ''Short'' \<or> video_type v = Some ''Live'')"

text \<open>
  Float operations that only build the expression, and a list of videos, for
  evaluating the aggregation on a concrete input.
\<close>

datatype float_expr = TrueDiv int int | MulInt float_expr int | RoundTo float_expr int

definition symbolic :: "float_expr float_ops" where
  "symbolic = \<lparr>true_div = TrueDiv, mul_int = MulInt, round_to = RoundTo\<rparr>"

definition sample_video :: "string \<Rightarrow> string option \<Rightarrow> int \<Rightarrow> int \<Rightarrow> int \<Rightarrow> video" where
  "sample_video vid t v l c =
     \<lparr>video_id = vid, title = vid, published_at = ''2024-05-01T00:00:00Z'',
      views = Some v, likes = Some l, comments = Some c, duration = ''PT30S'',
      video_type = t, url = ''https://youtube.com/watch?v='' @ vid\<rparr>"

definition sample_videos :: "video list" where
  "sample_videos =
     [sample_video ''s1'' (Some ''Short'') 10 1 0,
      sample_video ''s2'' (Some ''Short'') 30 2 1,
      sample_video ''v1'' (Some ''Video'') 500 20 5,
      sample_video ''s3'' (Some ''Short'') 20 0 0,
      sample_video ''s4'' (Some ''Short'') 30 3 0,
      sample_video ''s5'' (Some ''Short'') 5 0 0,
      sample_video ''n1'' None 7 0 0,
      sample_video ''s6'' (Some ''Short'') 40 4 2,
      sample_video ''s7'' (Some ''Short'') 30 1 1]"

text \<open>Databases whose lookup raises, at the first call or at the second.\<close>

definition failing_session_db :: "bool \<Rightarrow> session_db" where
  "failing_session_db at_connect =
     \<lparr>connect = (if at_connect then Inl ''connection refused'' else Inr ()),
      execute = (\<lambda>q args. Inl ''query failed'')\<rparr>"

definition failing_collection_db :: "bool \<Rightarrow> collection_db" where
  "failing_collection_db at_collection =
     \<lparr>collection = (\<lambda>n. if at_collection then Inl ''no such collection'' else Inr ()),
      find = (\<lambda>n c. Inl ''find failed'')\<rparr>"

text \<open>
  The entries of a page that are collected: those not older than the cutoff, and of
  those the ones whose details are found; and the detail requests made for a page.
\<close>

definition in_window :: "string \<Rightarrow> playlist_item \<Rightarrow> bool" where
  "in_window published_after item = (\<not> str_lt (pi_published_at item) published_after)"

definition in_window_videos :: "youtube \<Rightarrow> string \<Rightarrow> playlist_item list \<Rightarrow> video list" where
  "in_window_videos yt published_after items =
     List.map_filter (\<lambda>item. fst (get_video_details yt (pi_video_id item)))
       (filter (in_window published_after) items)"

definition detail_calls :: "string \<Rightarrow> playlist_item list \<Rightarrow> api_call list" where
  "detail_calls published_after items =
     map (\<lambda>item. VideosList (pi_video_id item)) (filter (in_window published_after) items)"

text \<open>
  \<open>serves yt pl tok ps tok'\<close>: asked from token \<open>tok\<close> on, the API returns the pages
  \<open>ps\<close> one after the other, each with a continuation token, the last of them \<open>tok'\<close>.
\<close>

fun serves :: "youtube \<Rightarrow> string \<Rightarrow> string option \<Rightarrow> playlist_page list \<Rightarrow> string option \<Rightarrow> bool" where
  "serves yt pl tok [] tok' = (tok' = tok)"
| "serves yt pl tok (p # ps) tok' =
     (playlist_items yt pl 50 tok = Inr p \<and> token_truthy (pp_next_page_token p)
      \<and> serves yt pl (pp_next_page_token p) ps tok')"

text \<open>The requests made for a run of pages, and the videos collected from it.\<close>

fun page_calls :: "string \<Rightarrow> string \<Rightarrow> string option \<Rightarrow> playlist_page list \<Rightarrow> api_call list" where
  "page_calls published_after pl tok [] = []"
| "page_calls published_after pl tok (p # ps) =
     PlaylistItemsList pl 50 tok # detail_calls published_after (pp_items p)
       @ page_calls published_after pl (pp_next_page_token p) ps"

definition videos_of_pages :: "youtube \<Rightarrow> string \<Rightarrow> playlist_page list \<Rightarrow> video list" where
  "videos_of_pages yt published_after ps =
     concat (map (\<lambda>p. in_window_videos yt published_after (pp_items p)) ps)"

text \<open>The page requests among the API calls.\<close>

fun is_page_request :: "api_call \<Rightarrow> bool" where
  "is_page_request (PlaylistItemsList pl n tok) = True"
| "is_page_request c = False"

text \<open>
  A channel with two pages of uploads, newest first: one entry inside the window and
  one older on the first page, an older one on the second. The request for the second
  page may raise.
\<close>

definition sample_cutoff :: string where
  "sample_cutoff = ''2024-05-01T00:00:00.000000Z''"

definition sample_page1 :: playlist_page where
  "sample_page1 =
     \<lparr>pp_items = [\<lparr>pi_published_at = ''2024-05-20T10:00:00Z'', pi_video_id = ''a''\<rparr>,
                  \<lparr>pi_published_at = ''2024-03-01T10:00:00Z'', pi_video_id = ''b''\<rparr>],
      pp_next_page_token = Some ''t2''\<rparr>"

definition sample_page2 :: playlist_page where
  "sample_page2 =
     \<lparr>pp_items = [\<lparr>pi_published_at = ''2024-02-01T10:00:00Z'', pi_video_id = ''c''\<rparr>],
      pp_next_page_token = None\<rparr>"

definition sample_resource :: video_resource where
  "sample_resource =
     \<lparr>vr_title = ''clip'', vr_published_at = ''2024-05-20T10:00:00Z'',
      vr_view_count = Some 100, vr_like_count = Some 7, vr_comment_count = None,
      vr_duration = ''PT45S'', vr_live_streaming_details = None,
      vr_live_broadcast_content = Some ''none''\<rparr>"

definition sample_youtube :: "bool \<Rightarrow> youtube" where
  "sample_youtube second_page_fails =
     \<lparr>channels_for_username = (\<lambda>u. Inr []),
      search_channel = (\<lambda>q. Inr []),
      channels_by_id = (\<lambda>c. if c = ''UC1'' then Inr [''UU1''] else Inr []),
      playlist_items = (\<lambda>pl n tok.
        if pl \<noteq> ''UU1'' then Inl ''playlist not found''
        else if tok = None then Inr sample_page1
        else if tok = Some ''t2'' \<and> \<not> second_page_fails then Inr sample_page2
        else Inl ''quota exceeded''),
      videos_by_id = (\<lambda>v. Inr [sample_resource])\<rparr>"

section \<open>Properties of the classifier\<close>

lemma match_component_hit:
  "ds \<noteq> [] \<Longrightarrow> list_all is_digit ds \<Longrightarrow> \<not> is_digit u \<Longrightarrow>
   match_component u (ds @ u # r) = Some (ds, r)"
  by (simp add: match_component_def list_all_iff takeWhile_append dropWhile_append)

lemma match_component_miss:
  "list_all is_digit ds \<Longrightarrow> \<not> is_digit v \<Longrightarrow> v \<noteq> u \<Longrightarrow>
   match_component u (ds @ v # r) = None"
  by (simp add: match_component_def list_all_iff takeWhile_append dropWhile_append)

lemma match_component_Nil: "match_component u [] = None"
  by (simp add: match_component_def)

lemma units_not_digits:
  "\<not> is_digit CHR ''H''" "\<not> is_digit CHR ''M''" "\<not> is_digit CHR ''S''"
  by (simp_all add: is_digit_def)

text \<open>On a string of the restricted form the regular expression finds its components.\<close>

lemma re_match_render:
  assumes "digits_ok h" "digits_ok m" "digits_ok s"
  shows "re_match_duration (render_duration h m s) =
           Some \<lparr>group1 = h, group2 = m, group3 = s, unmatched = []\<rparr>"
  using assms
  by (cases h; cases m; cases s)
     (simp_all add: re_match_duration_def render_duration_def component_def digits_ok_def
       opt_component_def match_component_hit match_component_miss match_component_Nil
       units_not_digits)

text \<open>\<open>int\<close> reads a decimal numeral back to its number.\<close>

lemma int_of_digits_snoc: "int_of_digits (ds @ [c]) = 10 * int_of_digits ds + digit_val c"
  by (simp add: int_of_digits_def)

lemma int_of_digits_decimal: "int_of_digits (decimal n) = n"
proof (induction n rule: decimal.induct)
  case (1 n)
  show ?case
  proof (cases "n < 10")
    case True
    then show ?thesis
      by (subst decimal.simps) (simp add: int_of_digits_def digit_val_def)
  next
    case False
    with 1 have "int_of_digits (decimal (n div 10)) = n div 10" by simp
    moreover have "digit_val (char_of (48 + n mod 10)) = n mod 10"
      by (simp add: digit_val_def)
    ultimately show ?thesis using False
      by (subst decimal.simps) (simp add: int_of_digits_snoc)
  qed
qed

lemma decimal_digits: "digits_ok (Some (decimal n))"
proof (induction n rule: decimal.induct)
  case (1 n)
  have d: "is_digit (char_of (48 + k))" if "k < 10" for k :: nat
    using that by (simp add: is_digit_def)
  show ?case
  proof (cases "n < 10")
    case True
    then show ?thesis by (subst decimal.simps) (simp add: d digits_ok_def)
  next
    case False
    with 1 show ?thesis by (subst decimal.simps) (simp add: d digits_ok_def)
  qed
qed

text \<open>The regular expression fails to match exactly on the strings not starting with \<open>PT\<close>.\<close>

lemma re_match_None_iff: "re_match_duration d = None \<longleftrightarrow> \<not> startswith d ''PT''"
  by (auto simp: re_match_duration_def startswith_def split: option.splits prod.splits)

text \<open>
  A string that starts with \<open>PT\<close> always matches. When none of the three components
  stands right after the prefix, all three groups are absent, the total is zero
  seconds and the duration counts as short, whatever follows.
\<close>

lemma bare_prefix_is_short:
  assumes "strip_prefix ''PT'' d = Some r"
    and "match_component CHR ''H'' r = None"
    and "match_component CHR ''M'' r = None"
    and "match_component CHR ''S'' r = None"
  shows "is_short_duration d"
  using assms
  by (simp add: is_short_duration_def re_match_duration_def opt_component_def
      total_seconds_def group_seconds_def)

text \<open>
  C1, as stated, fails: a duration on which the pattern does not match is not
  treated as zero seconds. \<open>_is_short_duration\<close> returns \<open>False\<close> for it, and the video
  is a \<open>Video\<close>, not a \<open>Short\<close>. \<open>P1D\<close>, the ISO-8601 duration of one day, is such a string.
\<close>

theorem day_long_duration_counterexample:
  "re_match_duration ''P1D'' = None
   \<and> determine_video_type ''P1D'' None (Some ''none'') = ''Video''"
  by (simp add: determine_video_type_def is_short_duration_def re_match_duration_def
      dict_truthy_def)

text \<open>
  C1, amended: for every duration string that does not begin with \<open>PT\<close> the pattern does
  not match and \<open>_is_short_duration\<close> returns \<open>False\<close>, so a video with that duration, no
  truthy live-streaming details and a broadcast-content status other than \<open>live\<close> and
  \<open>upcoming\<close> is classified as \<open>Video\<close>.
\<close>

theorem unmatched_duration_is_video:
  assumes "\<not> startswith dur ''PT''"
    and "\<not> dict_truthy live_details"
    and "broadcast_content \<noteq> Some ''live''"
    and "broadcast_content \<noteq> Some ''upcoming''"
  shows "re_match_duration dur = None
         \<and> \<not> is_short_duration dur
         \<and> determine_video_type dur live_details broadcast_content = ''Video''"
proof -
  from assms(1) have "re_match_duration dur = None"
    by (simp add: re_match_None_iff)
  with assms(2-4) show ?thesis
    by (simp add: determine_video_type_def is_short_duration_def)
qed

theorem unmatched_duration_is_video_witness:
  "\<not> startswith ''1:30'' ''PT''
   \<and> re_match_duration ''1:30'' = None
   \<and> \<not> is_short_duration ''1:30''
   \<and> determine_video_type ''1:30'' None None = ''Video''"
  using unmatched_duration_is_video [of "''1:30''" None None]
  by (simp add: startswith_def dict_truthy_def)

text \<open>
  C2, as stated, fails where live-streaming details are present but empty: the test
  \<open>if live_details\<close> is false for the empty dictionary, so the duration decides.
\<close>

theorem empty_live_details_counterexample:
  "determine_video_type ''PT10S'' (Some []) (Some ''none'') = ''Short''"
  by code_simp

text \<open>
  C2, amended: the classifier is an ordered policy, first match winning. If the
  live-streaming details are present and not empty, or the broadcast-content status is
  \<open>live\<close> or \<open>upcoming\<close>, it returns \<open>Live\<close> whatever the duration. Otherwise, for a
  duration of the form \<open>PT[nH][nM][nS]\<close> (a missing component counting as zero, total
  seconds = hours * 3600 + minutes * 60 + seconds), it returns \<open>Short\<close> when the total is
  at most 60 and \<open>Video\<close> when it is more.
\<close>

theorem determine_video_type_policy:
  "(dict_truthy live_details \<or> broadcast_content = Some ''live''
      \<or> broadcast_content = Some ''upcoming''
    \<longrightarrow> determine_video_type dur live_details broadcast_content = ''Live'')
   \<and> (\<not> dict_truthy live_details \<and> broadcast_content \<noteq> Some ''live''
      \<and> broadcast_content \<noteq> Some ''upcoming''
      \<and> digits_ok h \<and> digits_ok m \<and> digits_ok s
    \<longrightarrow> determine_video_type (render_duration h m s) live_details broadcast_content =
        (if group_seconds h * 3600 + group_seconds m * 60 + group_seconds s \<le> 60
         then ''Short'' else ''Video''))"
  by (simp add: determine_video_type_def is_short_duration_def re_match_render
      total_seconds_def)

theorem determine_video_type_policy_witness:
  "determine_video_type ''PT2H'' (Some [(''actualStartTime'', ''2024-01-01T00:00:00Z'')])
     (Some ''none'') = ''Live''
   \<and> determine_video_type ''PT1M'' None (Some ''none'') = ''Short''
   \<and> determine_video_type ''PT1M1S'' None (Some ''none'') = ''Video''"
proof -
  have short: "render_duration None (Some ''1'') None = ''PT1M''"
    and long: "render_duration None (Some ''1'') (Some ''1'') = ''PT1M1S''"
    by (simp_all add: render_duration_def component_def)
  have ok: "digits_ok None" "digits_ok (Some ''1'')"
    by (simp_all add: digits_ok_def is_digit_def)
  have secs: "group_seconds None = 0" "group_seconds (Some ''1'') = 1"
    by (simp_all add: group_seconds_def int_of_digits_def digit_val_def)
  show ?thesis
    using determine_video_type_policy
            [of "Some [(''actualStartTime'', ''2024-01-01T00:00:00Z'')]" "Some ''none''"
                "''PT2H''" None None None]
          determine_video_type_policy
            [of None "Some ''none''" "''PT1M''" None "Some ''1''" None]
          determine_video_type_policy
            [of None "Some ''none''" "''PT1M''" None "Some ''1''" "Some ''1''"]
    by (simp add: short long ok secs dict_truthy_def)
qed

section \<open>Properties of the identifier resolver\<close>

lemma contains_find_first: "contains s sub \<longleftrightarrow> find_first sub s \<noteq> None"
  by (induction s) (auto simp: startswith_def split: option.splits)

lemma segment_after_find_first:
  "sep \<noteq> [] \<Longrightarrow>
   segment_after sep s =
     map_option (\<lambda>(b, a). takeWhile (\<lambda>x. x \<noteq> CHR ''/'') a) (find_first sep s)"
  by (induction s) (auto split: option.splits)

lemma split_found:
  "sep \<noteq> [] \<Longrightarrow> find_first sep s = Some (b, a) \<Longrightarrow> split sep s = b # split sep a"
  by (subst split.simps) simp

lemma split_not_found:
  "sep \<noteq> [] \<Longrightarrow> find_first sep s = None \<Longrightarrow> split sep s = [s]"
  by (subst split.simps) simp

lemma takeWhile_stop: "\<not> P y \<Longrightarrow> takeWhile P (xs @ y # ys) = takeWhile P xs"
  by (induction xs) auto

text \<open>The first piece of a split at a single character.\<close>

lemma find_first_char:
  "find_first [c] s =
     (if c \<in> set s
      then Some (takeWhile (\<lambda>x. x \<noteq> c) s, tl (dropWhile (\<lambda>x. x \<noteq> c) s))
      else None)"
  by (induction s) auto

lemma split_char_first:
  "index (split [c] s) 0 = Inr (takeWhile (\<lambda>x. x \<noteq> c) s)"
proof (cases "c \<in> set s")
  case True
  then show ?thesis
    by (subst split.simps) (simp add: find_first_char index_def)
next
  case False
  then have tw: "takeWhile (\<lambda>x. x \<noteq> c) s = s"
    by (induction s) auto
  show ?thesis
    by (subst split.simps) (simp add: find_first_char index_def False tw)
qed

text \<open>
  The first piece of a split at a separator that starts with a slash ends at or
  before the first slash of the string.
\<close>

lemma split_first_piece:
  assumes "sep = CHR ''/'' # sep'"
  shows "\<exists>p ps. split sep s = p # ps
           \<and> takeWhile (\<lambda>x. x \<noteq> CHR ''/'') p = takeWhile (\<lambda>x. x \<noteq> CHR ''/'') s"
proof (cases "find_first sep s")
  case None
  then show ?thesis using assms by (simp add: split_not_found)
next
  case (Some ba)
  obtain b a where ba: "ba = (b, a)" by (cases ba)
  with Some have "s = b @ sep @ a" by (simp add: find_first_Some)
  with assms have "takeWhile (\<lambda>x. x \<noteq> CHR ''/'') s = takeWhile (\<lambda>x. x \<noteq> CHR ''/'') b"
    by (simp add: takeWhile_stop)
  with Some ba assms show ?thesis by (simp add: split_found)
qed

lemma channel_segment:
  assumes "contains identifier ''/channel/''"
  shows "\<exists>rest. index (split ''/channel/'' identifier) 1 = Inr rest
           \<and> index (split ''/'' rest) 0 = Inr (the (segment_after ''/channel/'' identifier))
           \<and> segment_after ''/channel/'' identifier \<noteq> None"
proof -
  from assms obtain b a where f: "find_first ''/channel/'' identifier = Some (b, a)"
    by (auto simp: contains_find_first)
  then have s: "split ''/channel/'' identifier = b # split ''/channel/'' a"
    by (simp add: split_found)
  obtain p ps where p: "split ''/channel/'' a = p # ps"
    and t: "takeWhile (\<lambda>x. x \<noteq> CHR ''/'') p = takeWhile (\<lambda>x. x \<noteq> CHR ''/'') a"
    using split_first_piece [of "''/channel/''" "''channel/''" a] by auto
  have seg: "segment_after ''/channel/'' identifier = Some (takeWhile (\<lambda>x. x \<noteq> CHR ''/'') a)"
    using f by (simp add: segment_after_find_first)
  have "index (split ''/channel/'' identifier) 1 = Inr p"
    by (simp add: s p index_def)
  moreover have "index (split ''/'' p) 0 = Inr (the (segment_after ''/channel/'' identifier))"
    by (simp add: split_char_first t seg)
  ultimately show ?thesis using seg by simp
qed

text \<open>
  C5, as stated, fails: the test for \<open>/channel/\<close> stands under the test for
  \<open>youtube.com\<close>. An identifier that contains \<open>/channel/\<close> but not \<open>youtube.com\<close> is
  taken for a username, and looked up through the API under its whole text.
\<close>

theorem channel_path_without_host_counterexample:
  "contains ''/channel/UC123'' ''/channel/''
   \<and> get_channel_id offline ''/channel/UC123''
       = (Inr None, [ChannelsListForUsername ''/channel/UC123''])"
  by code_simp

text \<open>
  C5, amended: for every input string that contains \<open>youtube.com\<close> and \<open>/channel/\<close>,
  \<open>get_channel_id\<close> returns the path segment right after the first \<open>/channel/\<close>, as it
  stands, and makes no request.
\<close>

theorem channel_url_resolved_locally:
  assumes "contains identifier ''youtube.com''"
    and "contains identifier ''/channel/''"
  shows "segment_after ''/channel/'' identifier \<noteq> None
         \<and> get_channel_id yt identifier
             = (Inr (segment_after ''/channel/'' identifier), [])"
proof -
  from channel_segment [OF assms(2)] obtain rest seg
    where "index (split ''/channel/'' identifier) 1 = Inr rest"
      and "index (split ''/'' rest) 0 = Inr seg"
      and "segment_after ''/channel/'' identifier = Some seg"
    by auto
  with assms show ?thesis by (simp add: get_channel_id_def)
qed

theorem channel_url_resolved_locally_witness:
  "contains ''https://www.youtube.com/channel/UCabc/videos'' ''youtube.com''
   \<and> contains ''https://www.youtube.com/channel/UCabc/videos'' ''/channel/''
   \<and> get_channel_id offline ''https://www.youtube.com/channel/UCabc/videos''
       = (Inr (Some ''UCabc''), [])"
proof -
  have h: "contains ''https://www.youtube.com/channel/UCabc/videos'' ''youtube.com''"
    and c: "contains ''https://www.youtube.com/channel/UCabc/videos'' ''/channel/''"
    by code_simp+
  have "segment_after ''/channel/'' ''https://www.youtube.com/channel/UCabc/videos''
          = Some ''UCabc''"
    by code_simp
  with channel_url_resolved_locally [OF h c, of offline] h c show ?thesis
    by simp
qed

section \<open>Properties of the aggregation\<close>

lemma group_videos_eq:
  "group_videos vs m =
     (case List.find (\<lambda>v. m (type_of v) = None) vs of
        Some v \<Rightarrow> Inl (KeyError (type_of v))
      | None \<Rightarrow> Inr (\<lambda>t. map_option (fold add_video (bucket t vs)) (m t)))"
proof (induction vs arbitrary: m)
  case Nil
  show ?case by (simp add: bucket_def option.map_id0 fun_eq_iff option.map_ident)
next
  case (Cons v vs)
  show ?case
  proof (cases "m (type_of v)")
    case None
    then show ?thesis by simp
  next
    case (Some stats)
    let ?m = "m(type_of v \<mapsto> add_video v stats)"
    have P: "(\<lambda>w. ?m (type_of w) = None) = (\<lambda>w. m (type_of w) = None)"
      using Some by (auto simp: fun_eq_iff)
    have F: "List.find (\<lambda>w. m (type_of w) = None) (v # vs)
               = List.find (\<lambda>w. m (type_of w) = None) vs"
      using Some by simp
    have R: "(\<lambda>t. map_option (fold add_video (bucket t vs)) (?m t)) =
             (\<lambda>t. map_option (fold add_video (bucket t (v # vs))) (m t))"
      using Some by (auto simp: bucket_def fun_eq_iff)
    have "group_videos (v # vs) m = group_videos vs ?m"
      using Some by simp
    also have "\<dots> =
        (case List.find (\<lambda>w. ?m (type_of w) = None) vs of
           Some w \<Rightarrow> Inl (KeyError (type_of w))
         | None \<Rightarrow> Inr (\<lambda>t. map_option (fold add_video (bucket t vs)) (?m t)))"
      by (rule Cons.IH)
    also have "\<dots> =
        (case List.find (\<lambda>w. m (type_of w) = None) (v # vs) of
           Some w \<Rightarrow> Inl (KeyError (type_of w))
         | None \<Rightarrow> Inr (\<lambda>t. map_option (fold add_video (bucket t (v # vs))) (m t)))"
      by (simp only: P F R)
    finally show ?thesis .
  qed
qed

lemma fold_add_video_count:
  "count (fold add_video xs st) = count st + int (length xs)"
  by (induction xs arbitrary: st) (simp_all add: add_video_def)

lemma fold_add_video_views:
  "total_views (fold add_video xs st) = total_views st + sum_list (map views_of xs)"
  by (induction xs arbitrary: st) (simp_all add: add_video_def)

lemma fold_add_video_likes:
  "total_likes (fold add_video xs st) = total_likes st + sum_list (map likes_of xs)"
  by (induction xs arbitrary: st) (simp_all add: add_video_def)

lemma fold_add_video_comments:
  "total_comments (fold add_video xs st) = total_comments st + sum_list (map comments_of xs)"
  by (induction xs arbitrary: st) (simp_all add: add_video_def)

lemma finish_stats_fields [simp]:
  "count (finish_stats fl st) = count st"
  "total_views (finish_stats fl st) = total_views st"
  "total_likes (finish_stats fl st) = total_likes st"
  "total_comments (finish_stats fl st) = total_comments st"
  "top_videos (finish_stats fl st) = top_videos st"
  by (simp_all add: finish_stats_def)

lemma initial_keys:
  "(initial_content_type_stats t = None) = (t \<noteq> ''Video'' \<and> t \<noteq> ''Short'' \<and> t \<noteq> ''Live'')"
  by (simp add: initial_content_type_stats_def)

lemma initial_Some:
  "initial_content_type_stats t = Some st \<Longrightarrow> st = get_empty_type_stats"
  by (auto simp: initial_content_type_stats_def split: if_splits)

text \<open>A bucket of a result is the fold of \<open>add_video\<close> over the videos of its type, finished.\<close>

lemma analyze_videos_Inr:
  assumes "analyze_videos fl cid days now videos = Inr r"
    and "content_type_analysis r t = Some b"
  shows "b = finish_stats fl (fold add_video (bucket t videos) get_empty_type_stats)"
    and "t = ''Video'' \<or> t = ''Short'' \<or> t = ''Live''"
proof -
  from assms(1) obtain m where
    g: "group_videos videos initial_content_type_stats = Inr m"
    and r: "content_type_analysis r = (\<lambda>k. map_option (finish_stats fl) (m k))"
    by (auto simp: analyze_videos_def Let_def split: sum.splits)
  from g have m: "m = (\<lambda>t. map_option (fold add_video (bucket t videos)) (initial_content_type_stats t))"
    by (simp add: group_videos_eq split: option.splits)
  from assms(2) r m obtain st where st: "initial_content_type_stats t = Some st"
    and b: "b = finish_stats fl (fold add_video (bucket t videos) st)"
    by auto
  from st have "st = get_empty_type_stats"
    by (rule initial_Some)
  with b show "b = finish_stats fl (fold add_video (bucket t videos) get_empty_type_stats)"
    by simp
  from st show "t = ''Video'' \<or> t = ''Short'' \<or> t = ''Live''"
    by (auto simp: initial_content_type_stats_def split: if_splits)
qed

lemma fold_add_video_snoc:
  "fold add_video (xs @ [x]) st = add_video x (fold add_video xs st)"
  by simp

lemma top_videos_add:
  "top_videos (add_video x st) = take 5 (sorted_reverse views_of (top_videos st @ [x]))"
  by (simp add: add_video_def)

lemma sorted_reverse_descending:
  "sorted_wrt (\<lambda>x y. key x \<ge> key y) (sorted_reverse key xs)"
proof -
  have "sorted (map (\<lambda>x. - key x) (sort_key (\<lambda>x. - key x) xs))"
    by (rule sorted_sort_key)
  then show ?thesis
    by (simp add: sorted_reverse_def sorted_map)
qed

lemma sorted_reverse_stable:
  "filter (\<lambda>v. key v = k) (sorted_reverse key xs) = filter (\<lambda>v. key v = k) xs"
proof -
  have "(\<lambda>v. key v = k) = (\<lambda>v. - key v = - k)" by auto
  then show ?thesis
    by (simp only: sorted_reverse_def sort_key_stable)
qed

lemma subseq_filter_take: "subseq (filter P (take n xs)) (filter P xs)"
proof -
  have "filter P xs = filter P (take n xs) @ filter P (drop n xs)"
    by (metis append_take_drop_id filter_append)
  then show ?thesis by (metis list_emb_prefix subseq_order.order_refl)
qed

lemma top_videos_invariant:
  assumes "top_videos st = []"
  shows "length (top_videos (fold add_video xs st)) \<le> 5
   \<and> sorted_wrt (\<lambda>x y. views_of x \<ge> views_of y) (top_videos (fold add_video xs st))
   \<and> subseq (filter (\<lambda>v. views_of v = k) (top_videos (fold add_video xs st)))
        (filter (\<lambda>v. views_of v = k) xs)"
proof (induction xs rule: rev_induct)
  case Nil
  show ?case by (simp add: assms)
next
  case (snoc x xs)
  define tv where "tv = top_videos (fold add_video xs st)"
  define new where "new = take 5 (sorted_reverse views_of (tv @ [x]))"
  have new: "top_videos (fold add_video (xs @ [x]) st) = new"
    by (simp only: fold_add_video_snoc top_videos_add new_def tv_def)
  have len: "length new \<le> 5" by (simp add: new_def)
  have desc: "sorted_wrt (\<lambda>x y. views_of x \<ge> views_of y) new"
    unfolding new_def by (rule sorted_wrt_take) (rule sorted_reverse_descending)
  have "subseq (filter (\<lambda>v. views_of v = k) new)
          (filter (\<lambda>v. views_of v = k) (sorted_reverse views_of (tv @ [x])))"
    unfolding new_def by (rule subseq_filter_take)
  also have "filter (\<lambda>v. views_of v = k) (sorted_reverse views_of (tv @ [x]))
               = filter (\<lambda>v. views_of v = k) tv @ filter (\<lambda>v. views_of v = k) [x]"
    by (simp only: sorted_reverse_stable filter_append)
  also have "subseq \<dots> (filter (\<lambda>v. views_of v = k) xs @ filter (\<lambda>v. views_of v = k) [x])"
    using snoc.IH unfolding tv_def by (intro list_emb_append_mono) simp_all
  finally have "subseq (filter (\<lambda>v. views_of v = k) new) (filter (\<lambda>v. views_of v = k) (xs @ [x]))"
    by simp
  with len desc show ?case
    by (simp only: new)
qed

lemma length_buckets:
  assumes "\<forall>v \<in> set videos. type_of v \<in> {''Video'', ''Short'', ''Live''}"
  shows "length videos = length (bucket ''Video'' videos) + length (bucket ''Short'' videos)
           + length (bucket ''Live'' videos)"
  using assms by (induction videos) (auto simp: bucket_def)

lemma sum_buckets:
  assumes "\<forall>v \<in> set videos. type_of v \<in> {''Video'', ''Short'', ''Live''}"
  shows "sum_list (map f videos) = sum_list (map f (bucket ''Video'' videos))
           + sum_list (map f (bucket ''Short'' videos))
           + (sum_list (map f (bucket ''Live'' videos)) :: int)"
  using assms by (induction videos) (auto simp: bucket_def)

lemma known_type_of: "known_type v \<longleftrightarrow> type_of v \<in> {''Video'', ''Short'', ''Live''}"
  by (auto simp: known_type_def type_of_def split: option.splits)

text \<open>With known types only, the analysis returns and has the three buckets.\<close>

lemma analyze_videos_known:
  assumes "list_all known_type videos"
  shows "\<exists>r. analyze_videos fl cid days now videos = Inr r
           \<and> (\<forall>t \<in> {''Video'', ''Short'', ''Live''}.
                content_type_analysis r t
                  = Some (finish_stats fl (fold add_video (bucket t videos) get_empty_type_stats)))"
proof -
  from assms have "\<forall>v \<in> set videos. type_of v \<in> {''Video'', ''Short'', ''Live''}"
    by (simp add: list_all_iff known_type_of)
  then have "List.find (\<lambda>v. (initial_content_type_stats :: string \<rightharpoonup> 'a type_stats) (type_of v) = None) videos = None"
    by (auto simp: find_None_iff initial_keys)
  then have g: "group_videos videos (initial_content_type_stats :: string \<rightharpoonup> 'a type_stats) =
      Inr (\<lambda>t. map_option (fold add_video (bucket t videos)) (initial_content_type_stats t))"
    by (simp add: group_videos_eq)
  have at: "(initial_content_type_stats :: string \<rightharpoonup> 'a type_stats) ''Video''
              = Some get_empty_type_stats"
    "(initial_content_type_stats :: string \<rightharpoonup> 'a type_stats) ''Short''
              = Some get_empty_type_stats"
    "(initial_content_type_stats :: string \<rightharpoonup> 'a type_stats) ''Live''
              = Some get_empty_type_stats"
    by (simp_all add: initial_content_type_stats_def)
  show ?thesis
    by (simp add: analyze_videos_def g at)
qed

text \<open>The sample videos, evaluated.\<close>

lemma sample_videos_known: "list_all known_type sample_videos"
  by (simp add: sample_videos_def sample_video_def known_type_def)

lemma sample_shorts:
  "bucket ''Short'' sample_videos =
     [sample_video ''s1'' (Some ''Short'') 10 1 0,
      sample_video ''s2'' (Some ''Short'') 30 2 1,
      sample_video ''s3'' (Some ''Short'') 20 0 0,
      sample_video ''s4'' (Some ''Short'') 30 3 0,
      sample_video ''s5'' (Some ''Short'') 5 0 0,
      sample_video ''s6'' (Some ''Short'') 40 4 2,
      sample_video ''s7'' (Some ''Short'') 30 1 1]"
  by (simp add: bucket_def sample_videos_def sample_video_def type_of_def)

lemma sample_of [simp]:
  "views_of (sample_video vid t v l c) = v"
  "likes_of (sample_video vid t v l c) = l"
  "comments_of (sample_video vid t v l c) = c"
  "video_id (sample_video vid t v l c) = vid"
  by (simp_all add: sample_video_def views_of_def likes_of_def comments_of_def stat_def)

lemma sample_top_shorts:
  "map video_id (top_videos (fold add_video (bucket ''Short'' sample_videos)
      (get_empty_type_stats :: float_expr type_stats)))
   = [''s6'', ''s2'', ''s4'', ''s7'', ''s3'']"
  by (simp add: sample_shorts add_video_def get_empty_type_stats_def sorted_reverse_def)

text \<open>
  C6: in every per-type bucket that \<open>analyze_channel\<close> produces, \<open>engagement_rate\<close> is
  \<open>round((total_likes + total_comments) / total_views * 100, 2)\<close> when the bucket's
  \<open>total_views\<close> is positive, and the integer 0 otherwise (an empty bucket included).
  The float operations are the parameters \<open>fl\<close>, so this holds whatever they compute.
\<close>

theorem engagement_rate_formula:
  assumes "analyze_videos fl cid days now videos = Inr r"
    and "content_type_analysis r t = Some b"
  shows "engagement_rate b =
           (if total_views b > 0
            then PyFloat (round_to fl (mul_int fl
                   (true_div fl (total_likes b + total_comments b) (total_views b)) 100) 2)
            else PyInt 0)"
proof -
  let ?st = "fold add_video (bucket t videos) get_empty_type_stats :: 'a type_stats"
  have b: "b = finish_stats fl ?st"
    using analyze_videos_Inr(1) [OF assms] .
  have cnt: "count ?st = int (length (bucket t videos))"
    by (simp add: fold_add_video_count get_empty_type_stats_def)
  show ?thesis
  proof (cases "bucket t videos")
    case Nil
    then show ?thesis
      by (simp add: b finish_stats_def get_empty_type_stats_def)
  next
    case (Cons x xs)
    with cnt have "count ?st > 0" by simp
    then show ?thesis
      unfolding b by (simp add: finish_stats_def)
  qed
qed

theorem engagement_rate_formula_witness:
  "\<exists>r b. analyze_videos symbolic ''UC1'' 30 ''2024-05-31T00:00:00'' sample_videos = Inr r
     \<and> content_type_analysis r ''Short'' = Some b
     \<and> total_views b = 165 \<and> total_likes b = 11 \<and> total_comments b = 4
     \<and> engagement_rate b = PyFloat (RoundTo (MulInt (TrueDiv 15 165) 100) 2)"
proof -
  from analyze_videos_known [OF sample_videos_known] obtain r
    where r: "analyze_videos symbolic ''UC1'' 30 ''2024-05-31T00:00:00'' sample_videos = Inr r"
      and b: "content_type_analysis r ''Short''
                = Some (finish_stats symbolic
                    (fold add_video (bucket ''Short'' sample_videos) get_empty_type_stats))"
    by blast
  define b0 where "b0 = finish_stats symbolic
      (fold add_video (bucket ''Short'' sample_videos) get_empty_type_stats)"
  have tot: "total_views b0 = 165" "total_likes b0 = 11" "total_comments b0 = 4"
    by (simp_all only: b0_def finish_stats_fields fold_add_video_views fold_add_video_likes
          fold_add_video_comments)
       (simp_all add: sample_shorts get_empty_type_stats_def)
  have "engagement_rate b0 =
          (if total_views b0 > 0
           then PyFloat (round_to symbolic (mul_int symbolic
                  (true_div symbolic (total_likes b0 + total_comments b0) (total_views b0))
                  100) 2)
           else PyInt 0)"
    using engagement_rate_formula [OF r b] unfolding b0_def .
  then have "engagement_rate b0 = PyFloat (RoundTo (MulInt (TrueDiv 15 165) 100) 2)"
    by (simp add: tot symbolic_def)
  with r b tot show ?thesis
    by (auto simp: b0_def)
qed

text \<open>
  C7: for every video list, each per-type \<open>top_videos\<close> list has at most 5 entries, is
  in descending order of the views, and its entries with equal views stand in their
  order of discovery: for every view count, they are a subsequence of the videos of
  that type and view count in the input list.
\<close>

theorem top_videos_bounded_sorted_stable:
  assumes "analyze_videos fl cid days now videos = Inr r"
    and "content_type_analysis r t = Some b"
  shows "length (top_videos b) \<le> 5
         \<and> sorted_wrt (\<lambda>x y. views_of x \<ge> views_of y) (top_videos b)
         \<and> subseq (filter (\<lambda>v. views_of v = k) (top_videos b))
              (filter (\<lambda>v. views_of v = k) (bucket t videos))"
proof -
  have e: "top_videos (get_empty_type_stats :: 'a type_stats) = []"
    by (simp add: get_empty_type_stats_def)
  show ?thesis
    using top_videos_invariant [OF e, of "bucket t videos" k]
    by (simp add: analyze_videos_Inr(1) [OF assms])
qed

theorem top_videos_bounded_sorted_stable_witness:
  "\<exists>r b. analyze_videos symbolic ''UC1'' 30 ''2024-05-31T00:00:00'' sample_videos = Inr r
     \<and> content_type_analysis r ''Short'' = Some b
     \<and> map video_id (top_videos b) = [''s6'', ''s2'', ''s4'', ''s7'', ''s3'']
     \<and> length (top_videos b) \<le> 5
     \<and> sorted_wrt (\<lambda>x y. views_of x \<ge> views_of y) (top_videos b)
     \<and> subseq (filter (\<lambda>v. views_of v = 30) (top_videos b))
          (filter (\<lambda>v. views_of v = 30) (bucket ''Short'' sample_videos))"
proof -
  from analyze_videos_known [OF sample_videos_known] obtain r
    where r: "analyze_videos symbolic ''UC1'' 30 ''2024-05-31T00:00:00'' sample_videos = Inr r"
      and b: "content_type_analysis r ''Short''
                = Some (finish_stats symbolic
                    (fold add_video (bucket ''Short'' sample_videos) get_empty_type_stats))"
    by blast
  from top_videos_bounded_sorted_stable [OF r b, of 30] r b sample_top_shorts
  show ?thesis by simp
qed

text \<open>
  C8: on the empty video list the result holds exactly the three content types
  \<open>Video\<close>, \<open>Short\<close> and \<open>Live\<close>, each with count 0, every sum, average and the
  engagement rate 0 and an empty \<open>top_videos\<close>, and the overall totals are all 0.
\<close>

theorem empty_analysis_all_zero:
  "analyze_videos (fl :: 'f float_ops) cid days now [] =
     Inr \<lparr>result_channel_id = cid, analysis_period_days = days, analysis_date = now,
          overall_stats = \<lparr>total_videos = 0, overall_views = 0, overall_likes = 0,
                           overall_comments = 0\<rparr>,
          content_type_analysis = initial_content_type_stats,
          all_videos = []\<rparr>
   \<and> dom (initial_content_type_stats :: string \<rightharpoonup> 'f type_stats) = {''Video'', ''Short'', ''Live''}
   \<and> (initial_content_type_stats :: string \<rightharpoonup> 'f type_stats) ''Video''
       = Some \<lparr>count = 0, total_views = 0, total_likes = 0, total_comments = 0,
               average_views = PyInt 0, average_likes = PyInt 0, average_comments = PyInt 0,
               engagement_rate = PyInt 0, top_videos = []\<rparr>
   \<and> (initial_content_type_stats :: string \<rightharpoonup> 'f type_stats) ''Short''
       = Some \<lparr>count = 0, total_views = 0, total_likes = 0, total_comments = 0,
               average_views = PyInt 0, average_likes = PyInt 0, average_comments = PyInt 0,
               engagement_rate = PyInt 0, top_videos = []\<rparr>
   \<and> (initial_content_type_stats :: string \<rightharpoonup> 'f type_stats) ''Live''
       = Some \<lparr>count = 0, total_views = 0, total_likes = 0, total_comments = 0,
               average_views = PyInt 0, average_likes = PyInt 0, average_comments = PyInt 0,
               engagement_rate = PyInt 0, top_videos = []\<rparr>"
proof -
  have fin: "finish_stats fl get_empty_type_stats = get_empty_type_stats"
    by (simp add: finish_stats_def get_empty_type_stats_def)
  have "(\<lambda>k. map_option (finish_stats fl) ((initial_content_type_stats :: string \<rightharpoonup> 'f type_stats) k))
          = initial_content_type_stats"
    by (auto simp: fun_eq_iff initial_content_type_stats_def fin)
  then have "analyze_videos fl cid days now [] =
     Inr \<lparr>result_channel_id = cid, analysis_period_days = days, analysis_date = now,
          overall_stats = \<lparr>total_videos = 0, overall_views = 0, overall_likes = 0,
                           overall_comments = 0\<rparr>,
          content_type_analysis = initial_content_type_stats,
          all_videos = []\<rparr>"
    by (simp add: analyze_videos_def)
  moreover have "dom (initial_content_type_stats :: string \<rightharpoonup> 'f type_stats) = {''Video'', ''Short'', ''Live''}"
    by (auto simp: initial_content_type_stats_def)
  ultimately show ?thesis
    by (simp add: initial_content_type_stats_def get_empty_type_stats_def)
qed

text \<open>
  C10: when every video's \<open>type\<close> is \<open>Video\<close>, \<open>Short\<close>, \<open>Live\<close> or absent, the
  analysis returns, and its overall totals are the sums over the three buckets:
  \<open>total_videos\<close> of the counts, and \<open>total_views\<close>, \<open>total_likes\<close>, \<open>total_comments\<close> of
  the per-type totals.
\<close>

theorem overall_totals_are_bucket_sums:
  assumes "list_all known_type videos"
  shows "\<exists>r vb sb lb.
           analyze_videos fl cid days now videos = Inr r
           \<and> content_type_analysis r ''Video'' = Some vb
           \<and> content_type_analysis r ''Short'' = Some sb
           \<and> content_type_analysis r ''Live'' = Some lb
           \<and> total_videos (overall_stats r) = count vb + count sb + count lb
           \<and> overall_views (overall_stats r) = total_views vb + total_views sb + total_views lb
           \<and> overall_likes (overall_stats r) = total_likes vb + total_likes sb + total_likes lb
           \<and> overall_comments (overall_stats r)
               = total_comments vb + total_comments sb + total_comments lb"
proof -
  from assms have types: "\<forall>v \<in> set videos. type_of v \<in> {''Video'', ''Short'', ''Live''}"
    by (simp add: list_all_iff known_type_of)
  then have "List.find (\<lambda>v. (initial_content_type_stats :: string \<rightharpoonup> 'a type_stats) (type_of v) = None) videos = None"
    by (auto simp: find_None_iff initial_keys)
  then have g: "group_videos videos (initial_content_type_stats :: string \<rightharpoonup> 'a type_stats) =
      Inr (\<lambda>t. map_option (fold add_video (bucket t videos)) (initial_content_type_stats t))"
    by (simp add: group_videos_eq)
  have at: "(initial_content_type_stats :: string \<rightharpoonup> 'a type_stats) ''Video''
              = Some get_empty_type_stats"
    "(initial_content_type_stats :: string \<rightharpoonup> 'a type_stats) ''Short''
              = Some get_empty_type_stats"
    "(initial_content_type_stats :: string \<rightharpoonup> 'a type_stats) ''Live''
              = Some get_empty_type_stats"
    by (simp_all add: initial_content_type_stats_def)
  have zero: "count (get_empty_type_stats :: 'a type_stats) = 0"
    "total_views (get_empty_type_stats :: 'a type_stats) = 0"
    "total_likes (get_empty_type_stats :: 'a type_stats) = 0"
    "total_comments (get_empty_type_stats :: 'a type_stats) = 0"
    by (simp_all add: get_empty_type_stats_def)
  show ?thesis
    using length_buckets [OF types] sum_buckets [OF types, of views_of]
      sum_buckets [OF types, of likes_of] sum_buckets [OF types, of comments_of]
    by (simp add: analyze_videos_def g at zero
        fold_add_video_count fold_add_video_views fold_add_video_likes
        fold_add_video_comments)
qed

theorem overall_totals_are_bucket_sums_witness:
  "list_all known_type sample_videos
   \<and> (\<exists>r vb sb lb.
         analyze_videos symbolic ''UC1'' 30 ''2024-05-31T00:00:00'' sample_videos = Inr r
         \<and> content_type_analysis r ''Video'' = Some vb
         \<and> content_type_analysis r ''Short'' = Some sb
         \<and> content_type_analysis r ''Live'' = Some lb
         \<and> total_videos (overall_stats r) = count vb + count sb + count lb
         \<and> overall_views (overall_stats r) = total_views vb + total_views sb + total_views lb
         \<and> overall_likes (overall_stats r) = total_likes vb + total_likes sb + total_likes lb
         \<and> overall_comments (overall_stats r)
             = total_comments vb + total_comments sb + total_comments lb)"
  using overall_totals_are_bucket_sums [OF sample_videos_known, of symbolic "''UC1''" 30
      "''2024-05-31T00:00:00''"] sample_videos_known
  by simp

section \<open>Properties of the lookup services\<close>

text \<open>
  C9: a \<open>GET /get_data\<close> request without the \<open>channel_id\<close> parameter gets, from both
  services, a 400 response with an error body, and no database call is made; when
  the database lookup raises (at \<open>connect\<close> or \<open>execute\<close> in \<open>api.py\<close>, at \<open>collection\<close> or
  \<open>find\<close> in \<open>DB_data_api.py\<close>), both return a 500 response whose body is the error
  with the exception's message.
\<close>

theorem get_data_error_responses:
  "(param_missing p \<longrightarrow>
      get_data_api sdb p = (400, ErrorBody ''channel_id parameter is required'', [])
      \<and> get_data_db cdb p = (400, ErrorBody ''channel_id parameter is required'', []))
   \<and> (c \<noteq> [] \<and> connect sdb = Inl e \<longrightarrow>
        get_data_api sdb (Some c) = (500, ErrorBody e, [Connect]))
   \<and> (c \<noteq> [] \<and> connect sdb = Inr ()
        \<and> execute sdb ''SELECT * FROM data WHERE channel_id = %s'' [c] = Inl e \<longrightarrow>
        get_data_api sdb (Some c) =
          (500, ErrorBody e,
           [Connect, Execute ''SELECT * FROM data WHERE channel_id = %s'' [c], Shutdown]))
   \<and> (c \<noteq> [] \<and> collection cdb ''data'' = Inl e \<longrightarrow>
        get_data_db cdb (Some c) = (500, ErrorBody e, [Collection ''data'']))
   \<and> (c \<noteq> [] \<and> collection cdb ''data'' = Inr () \<and> find cdb ''data'' c = Inl e \<longrightarrow>
        get_data_db cdb (Some c) = (500, ErrorBody e, [Collection ''data'', Find c]))"
  by (simp add: get_data_api_def get_data_db_def param_missing_def)

theorem get_data_error_responses_witness:
  "get_data_api (failing_session_db True) None
     = (400, ErrorBody ''channel_id parameter is required'', [])
   \<and> get_data_db (failing_collection_db True) None
     = (400, ErrorBody ''channel_id parameter is required'', [])
   \<and> get_data_api (failing_session_db True) (Some ''UC1'')
     = (500, ErrorBody ''connection refused'', [Connect])
   \<and> get_data_api (failing_session_db False) (Some ''UC1'')
     = (500, ErrorBody ''query failed'',
        [Connect, Execute ''SELECT * FROM data WHERE channel_id = %s'' [''UC1''], Shutdown])
   \<and> get_data_db (failing_collection_db True) (Some ''UC1'')
     = (500, ErrorBody ''no such collection'', [Collection ''data''])
   \<and> get_data_db (failing_collection_db False) (Some ''UC1'')
     = (500, ErrorBody ''find failed'', [Collection ''data'', Find ''UC1''])"
  using get_data_error_responses
          [of None "failing_session_db True" "failing_collection_db True" "''UC1''"
              "''connection refused''"]
        get_data_error_responses
          [of None "failing_session_db False" "failing_collection_db True" "''UC1''"
              "''query failed''"]
        get_data_error_responses
          [of None "failing_session_db True" "failing_collection_db True" "''UC1''"
              "''no such collection''"]
        get_data_error_responses
          [of None "failing_session_db True" "failing_collection_db False" "''UC1''"
              "''find failed''"]
  by (simp add: failing_session_db_def failing_collection_db_def param_missing_def)

section \<open>Properties of the video lister\<close>

lemma get_video_details_calls: "snd (get_video_details yt vid) = [VideosList vid]"
  by (simp add: get_video_details_def split: sum.splits list.splits)

lemma collect_items_eq:
  "collect_items yt cutoff items st =
     (fst st @ in_window_videos yt cutoff items, snd st @ detail_calls cutoff items)"
proof (induction items arbitrary: st)
  case Nil
  show ?case by (simp add: in_window_videos_def detail_calls_def map_filter_simps)
next
  case (Cons item items)
  obtain d cs where g: "get_video_details yt (pi_video_id item) = (d, cs)"
    by (cases "get_video_details yt (pi_video_id item)")
  with get_video_details_calls [of yt "pi_video_id item"]
  have cs: "cs = [VideosList (pi_video_id item)]" by simp
  show ?case
    by (cases d)
       (simp_all add: Cons.IH g cs in_window_videos_def detail_calls_def in_window_def
         map_filter_simps)
qed

lemma page_loop_raise:
  "playlist_items yt pl 50 tok = Inl e \<Longrightarrow>
   page_loop yt cutoff pl tok st = Some (fst st, snd st @ [PlaylistItemsList pl 50 tok])"
  by (subst page_loop.simps) simp

lemma page_loop_last:
  "playlist_items yt pl 50 tok = Inr p \<Longrightarrow> \<not> token_truthy (pp_next_page_token p) \<Longrightarrow>
   page_loop yt cutoff pl tok st =
     Some (fst st @ in_window_videos yt cutoff (pp_items p),
           snd st @ PlaylistItemsList pl 50 tok # detail_calls cutoff (pp_items p))"
  by (subst page_loop.simps) (simp add: collect_items_eq)

lemma page_loop_next:
  "playlist_items yt pl 50 tok = Inr p \<Longrightarrow> token_truthy (pp_next_page_token p) \<Longrightarrow>
   page_loop yt cutoff pl tok st =
     page_loop yt cutoff pl (pp_next_page_token p)
       (fst st @ in_window_videos yt cutoff (pp_items p),
        snd st @ PlaylistItemsList pl 50 tok # detail_calls cutoff (pp_items p))"
  by (subst page_loop.simps) (simp add: collect_items_eq)

lemma page_loop_serves:
  "serves yt pl tok ps tok' \<Longrightarrow>
   page_loop yt cutoff pl tok st =
     page_loop yt cutoff pl tok'
       (fst st @ videos_of_pages yt cutoff ps, snd st @ page_calls cutoff pl tok ps)"
proof (induction ps arbitrary: tok st)
  case Nil
  then show ?case by (simp add: videos_of_pages_def)
next
  case (Cons p ps)
  from Cons.prems have p: "playlist_items yt pl 50 tok = Inr p"
    and t: "token_truthy (pp_next_page_token p)"
    and rest: "serves yt pl (pp_next_page_token p) ps tok'"
    by simp_all
  show ?case
    by (simp add: page_loop_next [OF p t] Cons.IH [OF rest] videos_of_pages_def)
qed

lemma serves_append:
  "serves yt pl tok (ps @ qs) tok'' \<longleftrightarrow>
     (\<exists>tok'. serves yt pl tok ps tok' \<and> serves yt pl tok' qs tok'')"
  by (induction ps arbitrary: tok) auto

lemma page_calls_append:
  "serves yt pl tok ps tok' \<Longrightarrow>
   page_calls cutoff pl tok (ps @ qs) = page_calls cutoff pl tok ps @ page_calls cutoff pl tok' qs"
  by (induction ps arbitrary: tok) auto

lemma filter_detail_calls: "filter is_page_request (detail_calls cutoff items) = []"
  by (simp add: detail_calls_def filter_empty_conv)

lemma page_requests:
  "filter is_page_request (page_calls cutoff pl tok (ps @ [p])) =
     map (PlaylistItemsList pl 50) (tok # map pp_next_page_token ps)"
  by (induction ps arbitrary: tok) (simp_all add: filter_detail_calls)

lemma sample_youtube_fields:
  "channels_by_id (sample_youtube f) ''UC1'' = Inr [''UU1'']"
  "playlist_items (sample_youtube f) ''UU1'' 50 None = Inr sample_page1"
  "playlist_items (sample_youtube False) ''UU1'' 50 (Some ''t2'') = Inr sample_page2"
  "playlist_items (sample_youtube True) ''UU1'' 50 (Some ''t2'') = Inl ''quota exceeded''"
  by (simp_all add: sample_youtube_def)

lemma sample_serves: "serves (sample_youtube f) ''UU1'' None [sample_page1] (Some ''t2'')"
  by (simp add: sample_youtube_fields) (simp add: sample_page1_def token_truthy_def)

lemma sample_in_window:
  "map video_id (in_window_videos (sample_youtube f) sample_cutoff (pp_items sample_page1))
     = [''a'']"
  "in_window_videos (sample_youtube f) sample_cutoff (pp_items sample_page2) = []"
  by (simp_all add: in_window_videos_def in_window_def sample_page1_def sample_page2_def
      sample_cutoff_def map_filter_simps get_video_details_def sample_youtube_def)

lemma sample_page1_token:
  "pp_next_page_token sample_page1 = Some ''t2''"
  "token_truthy (pp_next_page_token sample_page1)"
  by (simp_all add: sample_page1_def token_truthy_def)

lemma sample_page2_token: "\<not> token_truthy (pp_next_page_token sample_page2)"
  by (simp add: sample_page2_def token_truthy_def)

lemma sample_detail_calls:
  "detail_calls sample_cutoff (pp_items sample_page1) = [VideosList ''a'']"
  "detail_calls sample_cutoff (pp_items sample_page2) = []"
  by (simp_all add: detail_calls_def in_window_def sample_page1_def sample_page2_def
      sample_cutoff_def)

lemma sample_listing_interrupted:
  "get_channel_videos (sample_youtube True) sample_cutoff ''UC1'' =
     Some (in_window_videos (sample_youtube True) sample_cutoff (pp_items sample_page1),
           [ChannelsListById ''UC1'', PlaylistItemsList ''UU1'' 50 None, VideosList ''a'',
            PlaylistItemsList ''UU1'' 50 (Some ''t2'')])"
  by (simp add: get_channel_videos_def sample_youtube_fields(1)
      page_loop_next [OF sample_youtube_fields(2) sample_page1_token(2)]
      sample_page1_token(1) page_loop_raise [OF sample_youtube_fields(4)]
      sample_detail_calls)

lemma sample_listing_complete:
  "get_channel_videos (sample_youtube False) sample_cutoff ''UC1'' =
     Some (in_window_videos (sample_youtube False) sample_cutoff (pp_items sample_page1),
           [ChannelsListById ''UC1'', PlaylistItemsList ''UU1'' 50 None, VideosList ''a'',
            PlaylistItemsList ''UU1'' 50 (Some ''t2'')])"
  by (simp add: get_channel_videos_def sample_youtube_fields(1)
      page_loop_next [OF sample_youtube_fields(2) sample_page1_token(2)]
      sample_page1_token(1) page_loop_last [OF sample_youtube_fields(3) sample_page2_token]
      sample_detail_calls sample_in_window(2))

text \<open>
  C3, as stated, fails: the handler around the loop returns \<open>videos\<close> as it stands.
  When the request for the second page raises, the video collected from the first page
  is returned.
\<close>

theorem interrupted_listing_counterexample:
  "playlist_items (sample_youtube True) ''UU1'' 50 (Some ''t2'') = Inl ''quota exceeded''
   \<and> map_option (map video_id \<circ> fst)
        (get_channel_videos (sample_youtube True) sample_cutoff ''UC1'') = Some [''a'']"
  by (simp add: sample_listing_interrupted sample_in_window(1) sample_youtube_fields(4))

text \<open>
  C3, amended: when the channel lookup raises, \<open>get_channel_videos\<close> returns an empty
  sequence. When a page request raises, it returns the videos collected from the pages
  received before (none when the first request raises). When a per-video detail request
  raises, \<open>get_video_details\<close> has no result and only that video is left out.
\<close>

theorem failures_keep_collected_videos:
  "(channels_by_id yt cid = Inl e \<longrightarrow>
      get_channel_videos yt cutoff cid = Some ([], [ChannelsListById cid]))
   \<and> (channels_by_id yt cid = Inr (pl # others) \<and> serves yt pl None ps tok
      \<and> playlist_items yt pl 50 tok = Inl e \<longrightarrow>
      map_option fst (get_channel_videos yt cutoff cid) = Some (videos_of_pages yt cutoff ps))
   \<and> (videos_by_id yt vid = Inl e \<longrightarrow> fst (get_video_details yt vid) = None)"
  by (auto simp: get_channel_videos_def page_loop_serves page_loop_raise get_video_details_def)

theorem failures_keep_collected_videos_witness:
  "get_channel_videos offline sample_cutoff ''UC1'' = Some ([], [ChannelsListById ''UC1''])
   \<and> serves (sample_youtube True) ''UU1'' None [sample_page1] (Some ''t2'')
   \<and> map_option (map video_id \<circ> fst)
        (get_channel_videos (sample_youtube True) sample_cutoff ''UC1'') = Some [''a'']
   \<and> fst (get_video_details offline ''a'') = None"
proof -
  have off: "channels_by_id offline ''UC1'' = Inl ''offline''"
    "videos_by_id offline ''a'' = Inl ''offline''"
    by (simp_all add: offline_def)
  have "map_option fst (get_channel_videos (sample_youtube True) sample_cutoff ''UC1'')
          = Some (videos_of_pages (sample_youtube True) sample_cutoff [sample_page1])"
    using failures_keep_collected_videos
            [of "sample_youtube True" "''UC1''" "''quota exceeded''" sample_cutoff "''UU1''" "[]"
                "[sample_page1]" "Some ''t2''" "''a''"]
          sample_serves [of True] sample_youtube_fields(1,4)
    by simp
  then have "map_option (map video_id \<circ> fst)
        (get_channel_videos (sample_youtube True) sample_cutoff ''UC1'') = Some [''a'']"
    by (cases "get_channel_videos (sample_youtube True) sample_cutoff ''UC1''")
       (auto simp: videos_of_pages_def sample_in_window)
  moreover have "get_channel_videos offline sample_cutoff ''UC1''
                   = Some ([], [ChannelsListById ''UC1''])"
    "fst (get_video_details offline ''a'') = None"
    using failures_keep_collected_videos
            [of offline "''UC1''" "''offline''" sample_cutoff "''UU1''" "[]" "[]" None "''a''"] off
    by simp_all
  ultimately show ?thesis
    using sample_serves [of True] by simp
qed

text \<open>
  C4, as stated, fails: an entry older than the cutoff is skipped and nothing else.
  The second entry of the first page is older than the cutoff, and the second page is
  requested all the same.
\<close>

theorem paging_past_cutoff_counterexample:
  "\<not> in_window sample_cutoff (pp_items sample_page1 ! 1)
   \<and> map_option (\<lambda>(vs, cs). (map video_id vs, cs))
     (get_channel_videos (sample_youtube False) sample_cutoff ''UC1'')
   = Some ([''a''],
       [ChannelsListById ''UC1'', PlaylistItemsList ''UU1'' 50 None, VideosList ''a'',
        PlaylistItemsList ''UU1'' 50 (Some ''t2'')])"
  by (simp add: sample_listing_complete sample_in_window(1))
     (simp add: in_window_def sample_page1_def sample_cutoff_def)

text \<open>
  C4, amended: \<open>get_channel_videos\<close> pages through the uploads playlist with a fixed page
  size of 50 and stops requesting pages only when a page yields no continuation token
  (or a request raises). Entries older than the cutoff are skipped one by one and never
  collected, and they do not end the paging: for pages served one after the other up
  to the first without a token, every page is requested, and the result is the
  entries inside the window, with their details, of all of them.
\<close>

theorem paging_ends_at_missing_token_only:
  assumes "channels_by_id yt cid = Inr (pl # others)"
    and "serves yt pl None ps tok"
    and "playlist_items yt pl 50 tok = Inr p"
    and "\<not> token_truthy (pp_next_page_token p)"
  shows "\<exists>calls. get_channel_videos yt cutoff cid
             = Some (videos_of_pages yt cutoff (ps @ [p]), calls)
           \<and> filter is_page_request calls
               = map (PlaylistItemsList pl 50) (None # map pp_next_page_token ps)"
proof -
  have "get_channel_videos yt cutoff cid =
          Some (videos_of_pages yt cutoff (ps @ [p]),
                ChannelsListById cid # page_calls cutoff pl None (ps @ [p]))"
    using assms
    by (simp add: get_channel_videos_def page_loop_serves [OF assms(2)]
        page_loop_last [OF assms(3,4)] videos_of_pages_def
        page_calls_append [OF assms(2)])
  then show ?thesis
    by (simp add: page_requests)
qed

theorem paging_ends_at_missing_token_only_witness:
  "\<exists>calls. map_option (\<lambda>(vs, cs). (map video_id vs, cs))
              (get_channel_videos (sample_youtube False) sample_cutoff ''UC1'')
             = Some ([''a''], calls)
     \<and> filter is_page_request calls
         = [PlaylistItemsList ''UU1'' 50 None, PlaylistItemsList ''UU1'' 50 (Some ''t2'')]"
proof -
  have last: "\<not> token_truthy (pp_next_page_token sample_page2)"
    by (simp add: sample_page2_def token_truthy_def)
  from paging_ends_at_missing_token_only
         [OF sample_youtube_fields(1) sample_serves sample_youtube_fields(3) last,
          of sample_cutoff]
  obtain calls where
    g: "get_channel_videos (sample_youtube False) sample_cutoff ''UC1''
          = Some (videos_of_pages (sample_youtube False) sample_cutoff
                    ([sample_page1] @ [sample_page2]), calls)"
    and c: "filter is_page_request calls
          = map (PlaylistItemsList ''UU1'' 50) (None # map pp_next_page_token [sample_page1])"
    by blast
  from g have "map_option (\<lambda>(vs, cs). (map video_id vs, cs))
              (get_channel_videos (sample_youtube False) sample_cutoff ''UC1'')
             = Some ([''a''], calls)"
    by (simp add: videos_of_pages_def sample_in_window)
  moreover from c have "filter is_page_request calls
         = [PlaylistItemsList ''UU1'' 50 None, PlaylistItemsList ''UU1'' 50 (Some ''t2'')]"
    by (simp add: sample_page1_def)
  ultimately show ?thesis by blast
qed

section \<open>The whole analysis\<close>

text \<open>
  A result of \<open>analyze_channel\<close> is the aggregation of the videos that
  \<open>get_channel_videos\<close> returned for the resolved channel, so the properties of the
  buckets above are properties of what \<open>analyze_channel\<close> returns.
\<close>

lemma analyze_channel_Results:
  assumes "analyze_channel fl yt cutoff now channel_url days = Some (Inr (Results r))"
  shows "\<exists>cid videos calls.
           fst (get_channel_id yt channel_url) = Inr (Some cid)
           \<and> get_channel_videos yt (cutoff days) cid = Some (videos, calls)
           \<and> analyze_videos fl cid days now videos = Inr r"
  using assms
  by (auto simp: analyze_channel_def split: sum.splits option.splits if_splits prod.splits)

text \<open>When the channel is not found, the result is the error dictionary.\<close>

lemma analyze_channel_not_found:
  "fst (get_channel_id yt channel_url) = Inr None \<Longrightarrow>
   analyze_channel fl yt cutoff now channel_url days
     = Some (Inr (ErrorDict ''Could not find channel ID''))"
  by (simp add: analyze_channel_def)

end
